theory Spec2Isabelle
  imports Complex_Main
begin

section \<open>Data model (blockchain\_app.py, lines 14--35)\<close>

text \<open>
  The pydantic models \<^verbatim>\<open>Transaction\<close>, \<^verbatim>\<open>Block\<close> and \<^verbatim>\<open>UTXO\<close> become records.
  Python floats (\<^verbatim>\<open>amount\<close>, \<^verbatim>\<open>timestamp\<close>) are only stored, copied and serialised
  by the code, never computed with or compared, so the records are parametric in the
  type \<open>'f\<close> that represents them. Python's unbounded \<^verbatim>\<open>int\<close> is \<open>int\<close>.
  The field \<^verbatim>\<open>Transaction.id\<close> is \<open>id_t\<close> and \<^verbatim>\<open>UTXO.amount\<close> is \<open>amount_u\<close>
  (the plain names are taken).
\<close>

record 'f transaction =
  id_t :: string
  sender :: string
  receiver :: string
  amount :: 'f
  input_utxos :: "string list"
  output_utxos :: "string list"
  signature :: string

record 'f block =
  index :: int
  timestamp :: 'f
  transactions :: "'f transaction list"
  previous_hash :: string
  nonce :: int
  hash :: string

record 'f utxo =
  transaction_id :: string
  amount_u :: 'f
  is_spent :: bool

text \<open>
  The state of the \<^verbatim>\<open>Blockchain\<close> object (lines 39--43). The dictionary
  \<^verbatim>\<open>utxo_pool\<close> is a map from identifiers to entries.
\<close>

record 'f blockchain =
  chain :: "'f block list"
  pending_transactions :: "'f transaction list"
  utxo_pool :: "string \<rightharpoonup> 'f utxo"
  difficulty :: int

text \<open>
  Exceptions are values. \<open>HTTPException status detail\<close> is FastAPI's exception; the
  others are the Python and \<^verbatim>\<open>ecdsa\<close> exceptions that the code can meet.
\<close>

datatype error =
    HTTPException nat string
  | IndexError
  | ValueError
  | BadSignatureError
  | MalformedPointError

text \<open>The error kinds of the specification, as the code raises them.\<close>

definition EmptyPendingQueue :: error where
  "EmptyPendingQueue = HTTPException 400 ''No transactions to mine.''"

definition PreviousHashMismatch :: error where
  "PreviousHashMismatch = HTTPException 400 ''Invalid previous hash.''"

definition InvalidBlockHash :: error where
  "InvalidBlockHash = HTTPException 400 ''Invalid block.''"

definition InvalidSignature :: error where
  "InvalidSignature = HTTPException 400 ''Invalid transaction signature.''"

definition UnspentInputMissing :: "string \<Rightarrow> error" where
  "UnspentInputMissing utxo_id = HTTPException 400 (''Invalid or spent UTXO: '' @ utxo_id)"

section \<open>Hashing (lines 58--67)\<close>

text \<open>
  The values handed to \<^verbatim>\<open>json.dumps\<close>: the dictionaries keep their keys in insertion
  order, as Python's do.
\<close>

datatype 'f json =
    JInt int
  | JFloat 'f
  | JStr string
  | JList "'f json list"
  | JDict "(string \<times> 'f json) list"

text \<open>\<^verbatim>\<open>tx.dict()\<close>: every field of the model, in declaration order.\<close>

definition tx_dict :: "'f transaction \<Rightarrow> 'f json" where
  "tx_dict tx = JDict
     [(''id'', JStr (id_t tx)),
      (''sender'', JStr (sender tx)),
      (''receiver'', JStr (receiver tx)),
      (''amount'', JFloat (amount tx)),
      (''input_utxos'', JList (map JStr (input_utxos tx))),
      (''output_utxos'', JList (map JStr (output_utxos tx))),
      (''signature'', JStr (signature tx))]"

text \<open>The dictionary \<^verbatim>\<open>block_data\<close> of \<^verbatim>\<open>compute_hash\<close>: it has no \<^verbatim>\<open>hash\<close> key.\<close>

definition block_data :: "'f block \<Rightarrow> 'f json" where
  "block_data b = JDict
     [(''index'', JInt (index b)),
      (''timestamp'', JFloat (timestamp b)),
      (''transactions'', JList (map tx_dict (transactions b))),
      (''previous_hash'', JStr (previous_hash b)),
      (''nonce'', JInt (nonce b))]"

text \<open>
  \<^verbatim>\<open>hashlib.sha256(json.dumps(block_data, sort_keys=True).encode()).hexdigest()\<close> is
  library code; it is the parameter \<open>H\<close> of everything that hashes.
\<close>

definition compute_hash :: "('f json \<Rightarrow> string) \<Rightarrow> 'f block \<Rightarrow> string" where
  "compute_hash H b = H (block_data b)"

text \<open>\<^verbatim>\<open>s.startswith(p)\<close> on Python strings.\<close>

definition startswith :: "string \<Rightarrow> string \<Rightarrow> bool" where
  "startswith s p = (take (length p) s = p)"

text \<open>\<^verbatim>\<open>"0" * self.difficulty\<close>: the empty string when the factor is not positive.\<close>

definition zeros :: "int \<Rightarrow> string" where
  "zeros d = replicate (nat d) (CHR ''0'')"

section \<open>The UTXO pool (lines 99--110)\<close>

text \<open>The first inner loop: an identifier that is in the pool gets its flag set.\<close>

definition mark_spent :: "string \<Rightarrow> (string \<rightharpoonup> 'f utxo) \<Rightarrow> (string \<rightharpoonup> 'f utxo)" where
  "mark_spent utxo_id pool =
     (case pool utxo_id of
        None \<Rightarrow> pool
      | Some u \<Rightarrow> pool(utxo_id \<mapsto> u\<lparr>is_spent := True\<rparr>))"

text \<open>
  The second inner loop runs over \<^verbatim>\<open>zip(transaction.output_utxos, [transaction.amount])\<close>:
  the second list has one element, so \<open>zip\<close> yields at most one pair.
\<close>

definition create_output ::
  "'f transaction \<Rightarrow> string \<times> 'f \<Rightarrow> (string \<rightharpoonup> 'f utxo) \<Rightarrow> (string \<rightharpoonup> 'f utxo)" where
  "create_output tx p pool =
     pool(fst p \<mapsto> \<lparr>transaction_id = id_t tx, amount_u = snd p, is_spent = False\<rparr>)"

definition apply_transaction ::
  "'f transaction \<Rightarrow> (string \<rightharpoonup> 'f utxo) \<Rightarrow> (string \<rightharpoonup> 'f utxo)" where
  "apply_transaction tx pool =
     fold (create_output tx) (zip (output_utxos tx) [amount tx])
       (fold mark_spent (input_utxos tx) pool)"

definition update_utxo_pool :: "(string \<rightharpoonup> 'f utxo) \<Rightarrow> 'f block \<Rightarrow> (string \<rightharpoonup> 'f utxo)" where
  "update_utxo_pool pool b = fold apply_transaction (transactions b) pool"

section \<open>The chain (lines 39--97)\<close>

text \<open>
  \<^verbatim>\<open>create_genesis_block\<close>; \<open>ts\<close> is the value \<^verbatim>\<open>time.time()\<close> returns.
\<close>

definition genesis_block :: "('f json \<Rightarrow> string) \<Rightarrow> 'f \<Rightarrow> 'f block" where
  "genesis_block H ts =
     (let g = \<lparr>index = 0, timestamp = ts, transactions = [], previous_hash = ''0'',
                nonce = 0, hash = ''''\<rparr>
      in g\<lparr>hash := compute_hash H g\<rparr>)"

definition create_genesis_block ::
  "('f json \<Rightarrow> string) \<Rightarrow> 'f \<Rightarrow> 'f blockchain \<Rightarrow> 'f blockchain" where
  "create_genesis_block H ts s = s\<lparr>chain := chain s @ [genesis_block H ts]\<rparr>"

text \<open>\<^verbatim>\<open>Blockchain.__init__\<close>.\<close>

definition init :: "('f json \<Rightarrow> string) \<Rightarrow> 'f \<Rightarrow> 'f blockchain" where
  "init H ts =
     create_genesis_block H ts
       \<lparr>chain = [], pending_transactions = [], utxo_pool = Map.empty, difficulty = 4\<rparr>"

text \<open>
  The mining loop (lines 83--85). Whether it ends depends on the digests, so it is a
  partial function: \<open>None\<close> is a search that never finds a nonce.
\<close>

partial_function (option) mine_loop ::
  "('f json \<Rightarrow> string) \<Rightarrow> int \<Rightarrow> 'f block \<Rightarrow> 'f block option" where
  "mine_loop H d b =
     (if startswith (hash b) (zeros d) then Some b
      else mine_loop H d
             (let b1 = b\<lparr>nonce := nonce b + 1\<rparr> in b1\<lparr>hash := compute_hash H b1\<rparr>))"

text \<open>The candidate \<^verbatim>\<open>new_block\<close> of \<^verbatim>\<open>mine_block\<close> (lines 73--81).\<close>

definition new_block :: "'f blockchain \<Rightarrow> 'f \<Rightarrow> 'f block" where
  "new_block s ts =
     \<lparr>index = index (last (chain s)) + 1, timestamp = ts,
      transactions = pending_transactions s, previous_hash = hash (last (chain s)),
      nonce = 0, hash = ''''\<rparr>"

text \<open>
  \<^verbatim>\<open>Blockchain.mine_block\<close>. The result pairs what the call returns or raises with the
  state it leaves; \<open>None\<close> is a call that never returns. \<^verbatim>\<open>self.chain[-1]\<close> raises
  \<^verbatim>\<open>IndexError\<close> on an empty list.
\<close>

definition mine_block ::
  "('f json \<Rightarrow> string) \<Rightarrow> 'f \<Rightarrow> 'f blockchain \<Rightarrow> ((error + 'f block) \<times> 'f blockchain) option" where
  "mine_block H ts s =
     (if pending_transactions s = [] then Some (Inl EmptyPendingQueue, s)
      else if chain s = [] then Some (Inl IndexError, s)
      else (case mine_loop H (difficulty s) (new_block s ts) of
              None \<Rightarrow> None
            | Some b \<Rightarrow>
                Some (Inr b,
                  s\<lparr>chain := chain s @ [b],
                    pending_transactions := [],
                    utxo_pool := update_utxo_pool (utxo_pool s) b\<rparr>)))"

definition validate_block :: "('f json \<Rightarrow> string) \<Rightarrow> 'f blockchain \<Rightarrow> 'f block \<Rightarrow> bool" where
  "validate_block H s b =
     (if hash b \<noteq> compute_hash H b then False
      else if \<not> startswith (hash b) (zeros (difficulty s)) then False
      else True)"

section \<open>Endpoints (lines 131--185)\<close>

definition new_transaction :: "'f blockchain \<Rightarrow> 'f transaction \<Rightarrow> 'f blockchain" where
  "new_transaction s tx = s\<lparr>pending_transactions := pending_transactions s @ [tx]\<rparr>"

definition add_block ::
  "('f json \<Rightarrow> string) \<Rightarrow> 'f blockchain \<Rightarrow> 'f block \<Rightarrow> (error + 'f block) \<times> 'f blockchain" where
  "add_block H s b =
     (if chain s = [] then (Inl IndexError, s)
      else if previous_hash b \<noteq> hash (last (chain s)) then (Inl PreviousHashMismatch, s)
      else if \<not> validate_block H s b then (Inl InvalidBlockHash, s)
      else (Inr b,
             s\<lparr>chain := chain s @ [b],
               utxo_pool := update_utxo_pool (utxo_pool s) b\<rparr>))"

subsection \<open>Signature checking (lines 124--128 and 174--185)\<close>

text \<open>
  Python's built-in \<^verbatim>\<open>bytes.fromhex\<close> (CPython 3.7 and later): ASCII whitespace
  between bytes is skipped, every byte is two hexadecimal digits, anything else
  raises \<^verbatim>\<open>ValueError\<close>. Bytes are numbers below 256.
\<close>

definition is_space :: "char \<Rightarrow> bool" where
  "is_space c = (of_char c \<in> {9, 10, 11, 12, 13, 32 :: nat})"

definition hex_digit :: "char \<Rightarrow> nat option" where
  "hex_digit c =
     (let n = (of_char c :: nat) in
      if 48 \<le> n \<and> n \<le> 57 then Some (n - 48)
      else if 97 \<le> n \<and> n \<le> 102 then Some (n - 87)
      else if 65 \<le> n \<and> n \<le> 70 then Some (n - 55)
      else None)"

fun fromhex :: "string \<Rightarrow> error + nat list" where
  "fromhex [] = Inr []"
| "fromhex (c # cs) =
     (if is_space c then fromhex cs
      else (case hex_digit c of
              None \<Rightarrow> Inl ValueError
            | Some hi \<Rightarrow>
                (case cs of
                   [] \<Rightarrow> Inl ValueError
                 | c' # cs' \<Rightarrow>
                     (case hex_digit c' of
                        None \<Rightarrow> Inl ValueError
                      | Some lo \<Rightarrow>
                          (case fromhex cs' of
                             Inl e \<Rightarrow> Inl e
                           | Inr bs \<Rightarrow> Inr ((16 * hi + lo) # bs))))))"

text \<open>
  \<^verbatim>\<open>verify_signature\<close>. The library call \<^verbatim>\<open>public_key.verify(signature, data.encode())\<close>
  is the parameter \<open>verify\<close>; it returns a boolean or raises. The \<^verbatim>\<open>try\<close> block
  catches \<^verbatim>\<open>ecdsa.BadSignatureError\<close> and nothing else.
\<close>

definition verify_signature ::
  "('pk \<Rightarrow> nat list \<Rightarrow> string \<Rightarrow> error + bool) \<Rightarrow> 'pk \<Rightarrow> string \<Rightarrow> string \<Rightarrow> error + bool" where
  "verify_signature verify public_key data sig =
     (case fromhex sig of
        Inl e \<Rightarrow> (if e = BadSignatureError then Inr False else Inl e)
      | Inr sig_bytes \<Rightarrow>
          (case verify public_key sig_bytes data of
             Inl e \<Rightarrow> (if e = BadSignatureError then Inr False else Inl e)
           | Inr ok \<Rightarrow> Inr ok))"

text \<open>The loop of \<^verbatim>\<open>verify_transaction\<close> over the inputs (lines 176--178).\<close>

fun check_inputs :: "(string \<rightharpoonup> 'f utxo) \<Rightarrow> string list \<Rightarrow> error option" where
  "check_inputs pool [] = None"
| "check_inputs pool (utxo_id # rest) =
     (case pool utxo_id of
        None \<Rightarrow> Some (UnspentInputMissing utxo_id)
      | Some u \<Rightarrow>
          if is_spent u then Some (UnspentInputMissing utxo_id)
          else check_inputs pool rest)"

text \<open>
  The message the signature is checked against (line 181):
  \<^verbatim>\<open>json.dumps(transaction.dict())\<close>, with \<^verbatim>\<open>json.dumps\<close> the parameter \<open>dumps\<close>.
\<close>

definition signed_message :: "('f json \<Rightarrow> string) \<Rightarrow> 'f transaction \<Rightarrow> string" where
  "signed_message dumps tx = dumps (tx_dict tx)"

text \<open>
  \<^verbatim>\<open>verify_transaction\<close>; \<^verbatim>\<open>ecdsa.VerifyingKey.from_string\<close> is the parameter
  \<open>from_string\<close>. The endpoint reads the state and does not change it.
\<close>

definition verify_transaction ::
  "(nat list \<Rightarrow> error + 'pk) \<Rightarrow> ('pk \<Rightarrow> nat list \<Rightarrow> string \<Rightarrow> error + bool) \<Rightarrow>
   ('f json \<Rightarrow> string) \<Rightarrow> 'f blockchain \<Rightarrow> 'f transaction \<Rightarrow> error + string" where
  "verify_transaction from_string verify dumps s tx =
     (case check_inputs (utxo_pool s) (input_utxos tx) of
        Some e \<Rightarrow> Inl e
      | None \<Rightarrow>
          (case fromhex (sender tx) of
             Inl e \<Rightarrow> Inl e
           | Inr key_bytes \<Rightarrow>
               (case from_string key_bytes of
                  Inl e \<Rightarrow> Inl e
                | Inr public_key \<Rightarrow>
                    (case verify_signature verify public_key (signed_message dumps tx)
                            (signature tx) of
                       Inl e \<Rightarrow> Inl e
                     | Inr is_valid \<Rightarrow>
                         if \<not> is_valid then Inl InvalidSignature
                         else Inr ''Transaction is valid.''))))"

section \<open>States of the running service\<close>

text \<open>
  The service starts from \<open>init\<close> and handles requests one at a time; the requests that
  write are \<^verbatim>\<open>/new_transaction\<close>, \<^verbatim>\<open>/mine_block\<close> and \<^verbatim>\<open>/add_block\<close>.
\<close>

inductive reachable :: "('f json \<Rightarrow> string) \<Rightarrow> 'f blockchain \<Rightarrow> bool"
  for H :: "'f json \<Rightarrow> string" where
  reach_init: "reachable H (init H ts)"
| reach_new_transaction: "reachable H s \<Longrightarrow> reachable H (new_transaction s tx)"
| reach_mine_block: "reachable H s \<Longrightarrow> mine_block H ts s = Some (r, s') \<Longrightarrow> reachable H s'"
| reach_add_block: "reachable H s \<Longrightarrow> add_block H s b = (r, s') \<Longrightarrow> reachable H s'"

text \<open>
  What one pass of the mining loop leaves for the nonce \<open>n\<close>, and whether the digest
  for \<open>n\<close> meets the difficulty.
\<close>

definition try_nonce :: "('f json \<Rightarrow> string) \<Rightarrow> 'f block \<Rightarrow> int \<Rightarrow> 'f block" where
  "try_nonce H b n = b\<lparr>nonce := n, hash := compute_hash H (b\<lparr>nonce := n\<rparr>)\<rparr>"

definition solves :: "('f json \<Rightarrow> string) \<Rightarrow> int \<Rightarrow> 'f block \<Rightarrow> int \<Rightarrow> bool" where
  "solves H d b n = startswith (compute_hash H (b\<lparr>nonce := n\<rparr>)) (zeros d)"

text \<open>Every block but the first carries the hash of the block before it.\<close>

definition linked :: "'f block list \<Rightarrow> bool" where
  "linked bs = (\<forall>i. i + 1 < length bs \<longrightarrow> previous_hash (bs ! (i + 1)) = hash (bs ! i))"

text \<open>Each block has a greater index than the block before it.\<close>

fun indices_increasing :: "'f block list \<Rightarrow> bool" where
  "indices_increasing [] = True"
| "indices_increasing [b] = True"
| "indices_increasing (a # b # bs) = (index a < index b \<and> indices_increasing (b # bs))"

section \<open>Example data\<close>

text \<open>
  Two stand-ins for the digest function, for running the model on concrete requests:
  \<open>demo_hash\<close> meets difficulty 4 exactly at nonce 2, \<open>zero_hash\<close> at every nonce.
\<close>

definition demo_hash :: "real json \<Rightarrow> string" where
  "demo_hash d =
     (case d of
        JDict kvs \<Rightarrow>
          (case map_of kvs ''nonce'' of
             Some (JInt n) \<Rightarrow> if n = 2 then ''0000beef'' else ''beef0000''
           | _ \<Rightarrow> ''beef'')
      | _ \<Rightarrow> ''beef'')"

definition zero_hash :: "real json \<Rightarrow> string" where
  "zero_hash d = ''0000''"

definition tx1 :: "real transaction" where
  "tx1 = \<lparr>id_t = ''t1'', sender = ''A'', receiver = ''B'', amount = 10,
          input_utxos = [], output_utxos = [''u1''], signature = ''''\<rparr>"

definition tx2 :: "real transaction" where
  "tx2 = \<lparr>id_t = ''t2'', sender = ''B'', receiver = ''C'', amount = 10,
          input_utxos = [''u1''], output_utxos = [''u2''], signature = ''''\<rparr>"

definition tx3 :: "real transaction" where
  "tx3 = \<lparr>id_t = ''t3'', sender = ''C'', receiver = ''D'', amount = 5,
          input_utxos = [], output_utxos = [''u1''], signature = ''''\<rparr>"

definition tx_two_outputs :: "real transaction" where
  "tx_two_outputs = \<lparr>id_t = ''t4'', sender = ''A'', receiver = ''B'', amount = 10,
          input_utxos = [], output_utxos = [''u1'', ''u2''], signature = ''''\<rparr>"

definition tx_signed :: "real transaction" where
  "tx_signed = \<lparr>id_t = ''t5'', sender = ''00'', receiver = ''B'', amount = 1,
          input_utxos = [], output_utxos = [], signature = ''ab''\<rparr>"

text \<open>
  The blocks and states that \<open>demo_hash\<close> gives: start-up at time 0, then
  \<open>tx1\<close>, \<open>tx2\<close> and \<open>tx3\<close> submitted and mined one after the other at times 1, 2
  and 3.
\<close>

definition demo_genesis :: "real block" where
  "demo_genesis = \<lparr>index = 0, timestamp = 0, transactions = [], previous_hash = ''0'',
                    nonce = 0, hash = ''beef0000''\<rparr>"

definition demo_block1 :: "real block" where
  "demo_block1 = \<lparr>index = 1, timestamp = 1, transactions = [tx1],
                   previous_hash = ''beef0000'', nonce = 2, hash = ''0000beef''\<rparr>"

definition demo_state0 :: "real blockchain" where
  "demo_state0 = \<lparr>chain = [demo_genesis], pending_transactions = [],
                   utxo_pool = Map.empty, difficulty = 4\<rparr>"

definition demo_state1 :: "real blockchain" where
  "demo_state1 = \<lparr>chain = [demo_genesis, demo_block1], pending_transactions = [],
                   utxo_pool = [''u1'' \<mapsto> \<lparr>transaction_id = ''t1'', amount_u = 10,
                                              is_spent = False\<rparr>],
                   difficulty = 4\<rparr>"

definition demo_block2 :: "real block" where
  "demo_block2 = \<lparr>index = 2, timestamp = 2, transactions = [tx2],
                   previous_hash = ''0000beef'', nonce = 2, hash = ''0000beef''\<rparr>"

definition demo_state2 :: "real blockchain" where
  "demo_state2 = \<lparr>chain = [demo_genesis, demo_block1, demo_block2], pending_transactions = [],
                   utxo_pool = [''u1'' \<mapsto> \<lparr>transaction_id = ''t1'', amount_u = 10,
                                              is_spent = True\<rparr>,
                                ''u2'' \<mapsto> \<lparr>transaction_id = ''t2'', amount_u = 10,
                                              is_spent = False\<rparr>],
                   difficulty = 4\<rparr>"

definition demo_block3 :: "real block" where
  "demo_block3 = \<lparr>index = 3, timestamp = 3, transactions = [tx3],
                   previous_hash = ''0000beef'', nonce = 2, hash = ''0000beef''\<rparr>"

definition demo_state3 :: "real blockchain" where
  "demo_state3 = \<lparr>chain = [demo_genesis, demo_block1, demo_block2, demo_block3],
                   pending_transactions = [],
                   utxo_pool = [''u2'' \<mapsto> \<lparr>transaction_id = ''t2'', amount_u = 10,
                                              is_spent = False\<rparr>,
                                ''u1'' \<mapsto> \<lparr>transaction_id = ''t3'', amount_u = 5,
                                              is_spent = False\<rparr>],
                   difficulty = 4\<rparr>"

text \<open>The same with \<open>zero_hash\<close>: start-up, \<open>tx1\<close> submitted, then mined.\<close>

definition zero_genesis :: "real block" where
  "zero_genesis = \<lparr>index = 0, timestamp = 0, transactions = [], previous_hash = ''0'',
                    nonce = 0, hash = ''0000''\<rparr>"

definition zero_block1 :: "real block" where
  "zero_block1 = \<lparr>index = 1, timestamp = 1, transactions = [tx1],
                   previous_hash = ''0000'', nonce = 1, hash = ''0000''\<rparr>"

definition zero_state0 :: "real blockchain" where
  "zero_state0 = \<lparr>chain = [zero_genesis], pending_transactions = [tx1],
                   utxo_pool = Map.empty, difficulty = 4\<rparr>"

definition zero_state1 :: "real blockchain" where
  "zero_state1 = \<lparr>chain = [zero_genesis, zero_block1], pending_transactions = [],
                   utxo_pool = [''u1'' \<mapsto> \<lparr>transaction_id = ''t1'', amount_u = 10,
                                              is_spent = False\<rparr>],
                   difficulty = 4\<rparr>"

text \<open>
  External blocks for \<open>add_block\<close>: one that spends \<open>u1\<close> again on top of
  \<open>demo_state2\<close>, one with index 0 on top of the genesis block; and the block mined
  from \<open>tx_two_outputs\<close> right after start-up.
\<close>

definition demo_block_other :: "real block" where
  "demo_block_other = \<lparr>index = 3, timestamp = 3, transactions = [tx2],
                   previous_hash = ''0000beef'', nonce = 2, hash = ''0000beef''\<rparr>"

definition demo_block_index0 :: "real block" where
  "demo_block_index0 = \<lparr>index = 0, timestamp = 1, transactions = [],
                   previous_hash = ''beef0000'', nonce = 2, hash = ''0000beef''\<rparr>"

definition demo_block_two :: "real block" where
  "demo_block_two = \<lparr>index = 1, timestamp = 1, transactions = [tx_two_outputs],
                   previous_hash = ''beef0000'', nonce = 2, hash = ''0000beef''\<rparr>"

text \<open>
  A transaction with a well-formed key and signature: the sender is the secp256k1
  public key of the private key 1 (the base point, 64 bytes), and the signature is
  64 bytes, an ECDSA signature with SHA-1 (the library's default) by that key over
  \<^verbatim>\<open>json.dumps\<close> of the six fields other than \<^verbatim>\<open>signature\<close>.
\<close>

definition honest_key_hex :: string where
  "honest_key_hex =
     ''79be667ef9dcbbac55a06295ce870b07029bfcdb2dce28d959f2815b16f81798483ada7726a3c4655da4fbfc0e1108a8fd17b448a68554199c47d08ffb10d4b8''"

definition honest_key_bytes :: "nat list" where
  "honest_key_bytes =
     [121, 190, 102, 126, 249, 220, 187, 172, 85, 160, 98, 149, 206, 135, 11, 7,
      2, 155, 252, 219, 45, 206, 40, 217, 89, 242, 129, 91, 22, 248, 23, 152,
      72, 58, 218, 119, 38, 163, 196, 101, 93, 164, 251, 252, 14, 17, 8, 168,
      253, 23, 180, 72, 166, 133, 84, 25, 156, 71, 208, 143, 251, 16, 212, 184]"

definition honest_sig_hex :: string where
  "honest_sig_hex =
     ''f01d6b9018ab421dd410404cb869072065522bf85734008f105cf385a023a80fd86409d13fda05ff9671c3e8b29e0c59fd6045c0343ac4e74b6ccc93b4179f79''"

definition honest_sig_bytes :: "nat list" where
  "honest_sig_bytes =
     [240, 29, 107, 144, 24, 171, 66, 29, 212, 16, 64, 76, 184, 105, 7, 32,
      101, 82, 43, 248, 87, 52, 0, 143, 16, 92, 243, 133, 160, 35, 168, 15,
      216, 100, 9, 209, 63, 218, 5, 255, 150, 113, 195, 232, 178, 158, 12, 89,
      253, 96, 69, 192, 52, 58, 196, 231, 75, 108, 204, 147, 180, 23, 159, 121]"

definition tx_honest :: "real transaction" where
  "tx_honest = \<lparr>id_t = ''t5'', sender = honest_key_hex, receiver = ''B'', amount = 1,
          input_utxos = [], output_utxos = [], signature = honest_sig_hex\<rparr>"

section \<open>The mining loop\<close>


lemma compute_hash_ignores_hash: "compute_hash H (b\<lparr>hash := h\<rparr>) = compute_hash H b"
  by (simp add: compute_hash_def block_data_def)

lemma compute_hash_nonce_hash:
  "compute_hash H (b\<lparr>nonce := m, hash := h\<rparr>\<lparr>nonce := n\<rparr>) = compute_hash H (b\<lparr>nonce := n\<rparr>)"
  by (simp add: compute_hash_def block_data_def)

lemma try_nonce_again: "try_nonce H (try_nonce H b m) n = try_nonce H b n"
  by (simp add: try_nonce_def compute_hash_def block_data_def)

lemma solves_try_nonce: "solves H d (try_nonce H b m) n = solves H d b n"
  by (simp add: solves_def try_nonce_def compute_hash_def block_data_def)

lemma hash_try_nonce: "startswith (hash (try_nonce H b n)) (zeros d) = solves H d b n"
  by (simp add: solves_def try_nonce_def)

lemma nonce_try_nonce: "nonce (try_nonce H b n) = n"
  by (simp add: try_nonce_def)

lemma mine_loop_step:
  "\<not> startswith (hash b) (zeros d) \<Longrightarrow>
   mine_loop H d b = mine_loop H d (try_nonce H b (nonce b + 1))"
  by (subst mine_loop.simps) (simp add: try_nonce_def Let_def)

lemma mine_loop_stop:
  "startswith (hash b) (zeros d) \<Longrightarrow> mine_loop H d b = Some b"
  by (subst mine_loop.simps) simp

lemma mine_loop_finds:
  assumes "\<not> startswith (hash b) (zeros d)"
    and "solves H d b (nonce b + 1 + int k)"
    and "\<forall>j<k. \<not> solves H d b (nonce b + 1 + int j)"
  shows "mine_loop H d b = Some (try_nonce H b (nonce b + 1 + int k))"
  using assms
proof (induction k arbitrary: b)
  case 0
  then show ?case
    by (simp add: mine_loop_step mine_loop_stop hash_try_nonce)
next
  case (Suc k)
  let ?b = "try_nonce H b (nonce b + 1)"
  from Suc.prems(3) have "\<not> solves H d b (nonce b + 1 + int 0)"
    by blast
  then have first: "\<not> solves H d b (nonce b + 1)"
    by simp
  have a: "\<not> startswith (hash ?b) (zeros d)"
    using first by (simp add: hash_try_nonce)
  have e: "nonce ?b + 1 + int k = nonce b + 1 + int (Suc k)"
    by (simp add: nonce_try_nonce)
  have b: "solves H d ?b (nonce ?b + 1 + int k)"
    using Suc.prems(2) by (simp only: e solves_try_nonce not_False_eq_True)
  have c: "\<forall>j<k. \<not> solves H d ?b (nonce ?b + 1 + int j)"
  proof (intro allI impI)
    fix j assume "j < k"
    then have "Suc j < Suc k" by simp
    with Suc.prems(3) have "\<not> solves H d b (nonce b + 1 + int (Suc j))"
      by blast
    moreover have "nonce ?b + 1 + int j = nonce b + 1 + int (Suc j)"
      by (simp add: nonce_try_nonce)
    ultimately show "\<not> solves H d ?b (nonce ?b + 1 + int j)"
      by (simp only: solves_try_nonce not_False_eq_True)
  qed
  have "mine_loop H d b = mine_loop H d ?b"
    using Suc.prems(1) by (rule mine_loop_step)
  also have "\<dots> = Some (try_nonce H ?b (nonce ?b + 1 + int k))"
    by (rule Suc.IH [OF a b c])
  also have "\<dots> = Some (try_nonce H b (nonce b + 1 + int (Suc k)))"
    by (simp only: e try_nonce_again)
  finally show ?case .
qed

lemma mine_loop_sound:
  assumes "mine_loop H d b = Some y"
  shows "(y = b \<and> startswith (hash b) (zeros d)) \<or>
         (\<not> startswith (hash b) (zeros d) \<and>
          (\<exists>k. y = try_nonce H b (nonce b + 1 + int k) \<and> solves H d b (nonce b + 1 + int k)
               \<and> (\<forall>j<k. \<not> solves H d b (nonce b + 1 + int j))))"
  using assms
proof (induction rule: mine_loop.raw_induct [rotated 1, consumes 1])
  case (1 mine_loop' H d b y)
  show ?case
  proof (cases "startswith (hash b) (zeros d)")
    case True
    with 1(2) show ?thesis by simp
  next
    case False
    let ?b = "try_nonce H b (nonce b + 1)"
    from False 1(2) have rec: "mine_loop' H d ?b = Some y"
      by (simp add: try_nonce_def Let_def)
    from 1(1) [OF rec] show ?thesis
    proof (elim disjE conjE exE)
      assume "y = ?b" "startswith (hash ?b) (zeros d)"
      then have "y = try_nonce H b (nonce b + 1 + int 0) \<and> solves H d b (nonce b + 1 + int 0)
               \<and> (\<forall>j<0. \<not> solves H d b (nonce b + 1 + int j))"
        by (simp add: hash_try_nonce)
      with False show ?thesis by blast
    next
      fix k
      assume n: "\<not> startswith (hash ?b) (zeros d)"
        and y: "y = try_nonce H ?b (nonce ?b + 1 + int k)"
        and s: "solves H d ?b (nonce ?b + 1 + int k)"
        and m: "\<forall>j<k. \<not> solves H d ?b (nonce ?b + 1 + int j)"
      have e: "nonce ?b + 1 + int i = nonce b + 1 + int (Suc i)" for i
        by (simp add: nonce_try_nonce)
      have "y = try_nonce H b (nonce b + 1 + int (Suc k))"
        using y by (simp only: e try_nonce_again)
      moreover have "solves H d b (nonce b + 1 + int (Suc k))"
        using s by (simp only: e solves_try_nonce not_False_eq_True)
      moreover have "\<forall>j<Suc k. \<not> solves H d b (nonce b + 1 + int j)"
      proof (intro allI impI)
        fix j assume j: "j < Suc k"
        show "\<not> solves H d b (nonce b + 1 + int j)"
        proof (cases j)
          case 0
          with n show ?thesis by (simp add: hash_try_nonce)
        next
          case (Suc i)
          with j m have "\<not> solves H d ?b (nonce ?b + 1 + int i)" by simp
          then have "\<not> solves H d b (nonce b + 1 + int (Suc i))"
            by (simp only: e solves_try_nonce not_False_eq_True)
          then show ?thesis unfolding Suc .
        qed
      qed
      ultimately show ?thesis using False by blast
    qed
  qed
qed


lemma mine_loop_keeps:
  assumes "mine_loop H d b = Some y"
  shows "index y = index b \<and> timestamp y = timestamp b \<and> transactions y = transactions b
       \<and> previous_hash y = previous_hash b"
  using mine_loop_sound [OF assms] by (auto simp: try_nonce_def)

lemma startswith_empty: "startswith [] (zeros d) = (d \<le> 0)"
  by (auto simp: startswith_def zeros_def)

lemma mine_loop_new_block:
  assumes "mine_loop H d (new_block s ts) = Some y" and "0 < d"
  shows "\<exists>k. y = try_nonce H (new_block s ts) (1 + int k)
           \<and> solves H d (new_block s ts) (1 + int k)
           \<and> (\<forall>j<k. \<not> solves H d (new_block s ts) (1 + int j))"
proof -
  have "\<not> startswith (hash (new_block s ts)) (zeros d)"
    using assms(2) by (simp add: new_block_def startswith_empty)
  moreover have "nonce (new_block s ts) = 0"
    by (simp add: new_block_def)
  ultimately show ?thesis
    using mine_loop_sound [OF assms(1)] by auto
qed

lemma mine_block_success:
  assumes "mine_block H ts s = Some (Inr b, s')"
  shows "pending_transactions s \<noteq> [] \<and> chain s \<noteq> []
       \<and> mine_loop H (difficulty s) (new_block s ts) = Some b
       \<and> s' = s\<lparr>chain := chain s @ [b], pending_transactions := [],
                 utxo_pool := update_utxo_pool (utxo_pool s) b\<rparr>"
  using assms by (auto simp: mine_block_def split: if_splits option.splits)

lemma mine_block_failure:
  assumes "mine_block H ts s = Some (Inl e, s')"
  shows "s' = s \<and> (e = EmptyPendingQueue \<and> pending_transactions s = []
                 \<or> e = IndexError \<and> pending_transactions s \<noteq> [] \<and> chain s = [])"
  using assms by (auto simp: mine_block_def split: if_splits option.splits)

lemma add_block_success:
  assumes "add_block H s b = (Inr r, s')"
  shows "r = b \<and> chain s \<noteq> [] \<and> previous_hash b = hash (last (chain s))
       \<and> validate_block H s b
       \<and> s' = s\<lparr>chain := chain s @ [b], utxo_pool := update_utxo_pool (utxo_pool s) b\<rparr>"
  using assms by (auto simp: add_block_def split: if_splits)

lemma add_block_failure:
  assumes "add_block H s b = (Inl e, s')"
  shows "s' = s"
  using assms by (auto simp: add_block_def split: if_splits)

lemma mine_block_chain_nonempty:
  "mine_block H ts s = Some (r, s') \<Longrightarrow> chain s \<noteq> [] \<Longrightarrow> chain s' \<noteq> []"
  by (auto simp: mine_block_def split: if_splits option.splits)

lemma mine_block_difficulty:
  "mine_block H ts s = Some (r, s') \<Longrightarrow> difficulty s' = difficulty s"
  by (auto simp: mine_block_def split: if_splits option.splits)

lemma add_block_chain_nonempty:
  "add_block H s b = (r, s') \<Longrightarrow> chain s \<noteq> [] \<Longrightarrow> chain s' \<noteq> []"
  by (auto simp: add_block_def split: if_splits)

lemma add_block_difficulty:
  "add_block H s b = (r, s') \<Longrightarrow> difficulty s' = difficulty s"
  by (auto simp: add_block_def split: if_splits)

lemma reachable_chain_nonempty: "reachable H s \<Longrightarrow> chain s \<noteq> []"
  by (induction rule: reachable.induct)
     (auto simp: init_def create_genesis_block_def new_transaction_def
           dest: mine_block_chain_nonempty add_block_chain_nonempty)

lemma reachable_difficulty: "reachable H s \<Longrightarrow> difficulty s = 4"
  by (induction rule: reachable.induct)
     (auto simp: init_def create_genesis_block_def new_transaction_def
           dest: mine_block_difficulty add_block_difficulty)

lemma zeros_4: "zeros 4 = ''0000''"
  by (simp add: zeros_def numeral_eq_Suc)

section \<open>Running the examples\<close>


lemma demo_solves: "solves demo_hash 4 b n = (n = 2)"
  by (simp add: solves_def compute_hash_def block_data_def demo_hash_def startswith_def zeros_4)

lemma zero_solves: "solves zero_hash 4 b n"
  by (simp add: solves_def compute_hash_def zero_hash_def startswith_def zeros_4)

lemma demo_mine_loop:
  "mine_loop demo_hash 4 (new_block s ts) = Some (try_nonce demo_hash (new_block s ts) 2)"
proof -
  have "mine_loop demo_hash 4 (new_block s ts)
      = Some (try_nonce demo_hash (new_block s ts) (nonce (new_block s ts) + 1 + int 1))"
    by (rule mine_loop_finds) (simp_all add: demo_solves new_block_def startswith_empty)
  then show ?thesis by (simp add: new_block_def)
qed

lemma zero_mine_loop:
  "mine_loop zero_hash 4 (new_block s ts) = Some (try_nonce zero_hash (new_block s ts) 1)"
proof -
  have "mine_loop zero_hash 4 (new_block s ts)
      = Some (try_nonce zero_hash (new_block s ts) (nonce (new_block s ts) + 1 + int 0))"
    by (rule mine_loop_finds) (simp_all add: zero_solves new_block_def startswith_empty)
  then show ?thesis by (simp add: new_block_def)
qed

lemma demo_init:
  "init demo_hash ts =
     \<lparr>chain = [\<lparr>index = 0, timestamp = ts, transactions = [], previous_hash = ''0'',
                 nonce = 0, hash = ''beef0000''\<rparr>],
      pending_transactions = [], utxo_pool = Map.empty, difficulty = 4\<rparr>"
  by (simp add: init_def create_genesis_block_def genesis_block_def compute_hash_def
      block_data_def demo_hash_def)

lemma demo_mine_block:
  assumes "pending_transactions s \<noteq> []" "chain s \<noteq> []" "difficulty s = 4"
  shows "mine_block demo_hash ts s =
     Some (Inr (try_nonce demo_hash (new_block s ts) 2),
           s\<lparr>chain := chain s @ [try_nonce demo_hash (new_block s ts) 2],
             pending_transactions := [],
             utxo_pool := update_utxo_pool (utxo_pool s)
                            (try_nonce demo_hash (new_block s ts) 2)\<rparr>)"
  using assms by (simp add: mine_block_def demo_mine_loop)

lemma demo_try_nonce:
  "try_nonce demo_hash b 2 = b\<lparr>nonce := 2, hash := ''0000beef''\<rparr>"
  by (simp add: try_nonce_def compute_hash_def block_data_def demo_hash_def)

section \<open>Rejected external blocks\<close>

text \<open>
  Claim C6. In every state of the service, \<open>add_block\<close> on a block whose
  \<open>previous_hash\<close> differs from the hash of the last block of the chain fails with
  \<open>PreviousHashMismatch\<close> and returns the state as it was (chain and UTXO pool
  included); and whenever \<open>add_block\<close> fails, the error is \<open>PreviousHashMismatch\<close> or
  \<open>InvalidBlockHash\<close> and the state is the one before the call.
\<close>

theorem add_block_rejects_unchanged:
  assumes "reachable H s"
  shows "(previous_hash b \<noteq> hash (last (chain s)) \<longrightarrow>
            add_block H s b = (Inl PreviousHashMismatch, s))
       \<and> (\<forall>e. fst (add_block H s b) = Inl e \<longrightarrow>
            (e = PreviousHashMismatch \<or> e = InvalidBlockHash) \<and> snd (add_block H s b) = s)"
  using reachable_chain_nonempty [OF assms]
  by (auto simp: add_block_def)

theorem add_block_rejects_unchanged_witness:
  "reachable demo_hash (init demo_hash 0)
   \<and> add_block demo_hash (init demo_hash 0)
        \<lparr>index = 1, timestamp = 1, transactions = [tx1], previous_hash = ''0000beef'',
         nonce = 2, hash = ''0000beef''\<rparr>
      = (Inl PreviousHashMismatch, init demo_hash 0)
   \<and> fst (add_block demo_hash (init demo_hash 0)
        \<lparr>index = 1, timestamp = 1, transactions = [tx1], previous_hash = ''beef0000'',
         nonce = 3, hash = ''0000beef''\<rparr>) = Inl InvalidBlockHash
   \<and> snd (add_block demo_hash (init demo_hash 0)
        \<lparr>index = 1, timestamp = 1, transactions = [tx1], previous_hash = ''beef0000'',
         nonce = 3, hash = ''0000beef''\<rparr>) = init demo_hash 0"
proof -
  have r: "reachable demo_hash (init demo_hash 0)"
    by (rule reach_init)
  have f: "fst (add_block demo_hash (init demo_hash 0)
        \<lparr>index = 1, timestamp = 1, transactions = [tx1], previous_hash = ''beef0000'',
         nonce = 3, hash = ''0000beef''\<rparr>) = Inl InvalidBlockHash"
    by (simp add: add_block_def demo_init validate_block_def compute_hash_def block_data_def
        demo_hash_def)
  have p: "previous_hash \<lparr>index = 1, timestamp = 1, transactions = [tx1],
         previous_hash = ''0000beef'', nonce = 2, hash = ''0000beef''\<rparr>
       \<noteq> hash (last (chain (init demo_hash 0)))"
    by (simp add: demo_init)
  from add_block_rejects_unchanged [OF r] p f r show ?thesis
    by blast
qed

section \<open>The hash chain\<close>

lemma demo_init0: "init demo_hash 0 = demo_state0"
  by (simp add: demo_init demo_state0_def demo_genesis_def)

lemma demo_mine1:
  "mine_block demo_hash 1 (new_transaction demo_state0 tx1) = Some (Inr demo_block1, demo_state1)"
  by (simp add: demo_mine_block new_transaction_def demo_state0_def demo_try_nonce new_block_def
      demo_genesis_def demo_block1_def demo_state1_def update_utxo_pool_def
      apply_transaction_def create_output_def tx1_def)

lemma demo_reachable0: "reachable demo_hash demo_state0"
  using reach_init [of demo_hash 0] by (simp add: demo_init0)

lemma demo_reachable0': "reachable demo_hash (new_transaction demo_state0 tx1)"
  by (rule reach_new_transaction [OF demo_reachable0])

lemma demo_reachable1: "reachable demo_hash demo_state1"
  by (rule reach_mine_block [OF demo_reachable0' demo_mine1])

lemma linked_snoc:
  assumes "linked bs" and "bs \<noteq> []" and "previous_hash b = hash (last bs)"
  shows "linked (bs @ [b])"
  unfolding linked_def
proof (intro allI impI)
  fix i
  assume i: "i + 1 < length (bs @ [b])"
  show "previous_hash ((bs @ [b]) ! (i + 1)) = hash ((bs @ [b]) ! i)"
  proof (cases "i + 1 < length bs")
    case True
    then show ?thesis
      using assms(1) by (simp add: linked_def nth_append)
  next
    case False
    with i have e: "i + 1 = length bs" by simp
    then have i': "i = length bs - 1" by simp
    have "(bs @ [b]) ! (i + 1) = b" and "(bs @ [b]) ! i = last bs"
      using assms(2) e by (simp_all add: nth_append last_conv_nth i')
    with assms(3) show ?thesis by simp
  qed
qed

lemma mine_block_linked:
  assumes "mine_block H ts s = Some (r, s')" and "linked (chain s)"
  shows "linked (chain s')"
proof (cases r)
  case (Inl e)
  with assms show ?thesis by (auto dest: mine_block_failure)
next
  case (Inr b)
  with assms(1) have m: "mine_block H ts s = Some (Inr b, s')" by simp
  note s = mine_block_success [OF m]
  from s have "previous_hash b = hash (last (chain s))"
    by (auto dest: mine_loop_keeps simp: new_block_def)
  with s assms(2) show ?thesis
    by (auto intro: linked_snoc)
qed

lemma add_block_linked:
  assumes "add_block H s b = (r, s')" and "linked (chain s)"
  shows "linked (chain s')"
proof (cases r)
  case (Inl e)
  with assms show ?thesis by (auto dest: add_block_failure)
next
  case (Inr b')
  with assms(1) have "add_block H s b = (Inr b', s')" by simp
  from add_block_success [OF this] assms(2) show ?thesis
    by (auto intro: linked_snoc)
qed

lemma reachable_linked: "reachable H s \<Longrightarrow> linked (chain s)"
proof (induction rule: reachable.induct)
  case (reach_init ts)
  show ?case by (simp add: init_def create_genesis_block_def linked_def)
next
  case (reach_new_transaction s tx)
  then show ?case by (simp add: new_transaction_def)
next
  case (reach_mine_block s ts r s')
  then show ?case by (blast intro: mine_block_linked)
next
  case (reach_add_block s b r s')
  then show ?case by (blast intro: add_block_linked)
qed

text \<open>
  Claim C3. In every state of the service, so after every successful append by
  \<open>mine_block\<close> or \<open>add_block\<close>, each block of the chain but the first carries the hash
  of the block before it: \<open>chain[i+1].previous_hash = chain[i].hash\<close> for every \<open>i\<close>
  with \<open>i + 1\<close> in range.
\<close>
theorem chain_previous_hash_links:
  assumes "reachable H s" and "i + 1 < length (chain s)"
  shows "previous_hash (chain s ! (i + 1)) = hash (chain s ! i)"
  using reachable_linked [OF assms(1)] assms(2) by (simp add: linked_def)

theorem chain_previous_hash_links_witness:
  "reachable demo_hash demo_state1 \<and> 0 + 1 < length (chain demo_state1)
   \<and> previous_hash (chain demo_state1 ! (0 + 1)) = hash (chain demo_state1 ! 0)"
proof -
  have l: "0 + 1 < length (chain demo_state1)"
    by (simp add: demo_state1_def)
  from chain_previous_hash_links [OF demo_reachable1 l] demo_reachable1 l
  show ?thesis by blast
qed

section \<open>Mined blocks\<close>

lemma zero_reachable0: "reachable zero_hash zero_state0"
proof -
  have "new_transaction (init zero_hash 0) tx1 = zero_state0"
    by (simp add: new_transaction_def init_def create_genesis_block_def genesis_block_def
        compute_hash_def zero_hash_def zero_state0_def zero_genesis_def)
  with reach_new_transaction [OF reach_init, of zero_hash 0 tx1] show ?thesis by simp
qed

lemma zero_mine_block:
  assumes "pending_transactions s \<noteq> []" "chain s \<noteq> []" "difficulty s = 4"
  shows "mine_block zero_hash ts s =
     Some (Inr (try_nonce zero_hash (new_block s ts) 1),
           s\<lparr>chain := chain s @ [try_nonce zero_hash (new_block s ts) 1],
             pending_transactions := [],
             utxo_pool := update_utxo_pool (utxo_pool s)
                            (try_nonce zero_hash (new_block s ts) 1)\<rparr>)"
  using assms by (simp add: mine_block_def zero_mine_loop)

lemma zero_try_nonce: "try_nonce zero_hash b 1 = b\<lparr>nonce := 1, hash := ''0000''\<rparr>"
  by (simp add: try_nonce_def compute_hash_def zero_hash_def)

lemma zero_mine1: "mine_block zero_hash 1 zero_state0 = Some (Inr zero_block1, zero_state1)"
  by (simp add: zero_mine_block zero_state0_def zero_try_nonce
      new_block_def zero_genesis_def zero_block1_def zero_state1_def
      update_utxo_pool_def apply_transaction_def create_output_def tx1_def)

lemma mined_block_shape:
  assumes "reachable H s" and "mine_block H ts s = Some (Inr b, s')"
  shows "\<exists>k. b = try_nonce H (new_block s ts) (1 + int k)
           \<and> solves H 4 (new_block s ts) (1 + int k)
           \<and> (\<forall>j<k. \<not> solves H 4 (new_block s ts) (1 + int j))"
proof -
  have d: "difficulty s = 4" by (rule reachable_difficulty [OF assms(1)])
  from mine_block_success [OF assms(2)] d
  have "mine_loop H 4 (new_block s ts) = Some b" by simp
  from mine_loop_new_block [OF this] show ?thesis by simp
qed

text \<open>
  Claim C4. Every block that \<open>mine_block\<close> returns, in any state of the service, has
  as its \<open>hash\<close> the digest recomputed by \<open>compute_hash\<close> (which reads every field
  but \<open>hash\<close>), and that hash starts with as many \<open>0\<close> characters as the
  difficulty says, which is 4 in every state of the service.
\<close>
theorem mined_block_hash_valid:
  assumes "reachable H s" and "mine_block H ts s = Some (Inr b, s')"
  shows "compute_hash H b = hash b \<and> startswith (hash b) (zeros (difficulty s))
       \<and> difficulty s = 4"
proof -
  from mined_block_shape [OF assms] obtain k
    where b: "b = try_nonce H (new_block s ts) (1 + int k)"
      and s: "solves H 4 (new_block s ts) (1 + int k)" by blast
  have "compute_hash H b = hash b"
    unfolding b by (simp add: try_nonce_def compute_hash_def block_data_def)
  moreover have "startswith (hash b) (zeros 4)"
    unfolding b using s by (simp add: hash_try_nonce)
  ultimately show ?thesis
    using reachable_difficulty [OF assms(1)] by simp
qed

theorem mined_block_hash_valid_witness:
  "reachable demo_hash (new_transaction demo_state0 tx1)
   \<and> mine_block demo_hash 1 (new_transaction demo_state0 tx1) = Some (Inr demo_block1, demo_state1)
   \<and> compute_hash demo_hash demo_block1 = hash demo_block1
   \<and> startswith (hash demo_block1) ''0000''"
proof -
  have "difficulty (new_transaction demo_state0 tx1) = 4"
    by (simp add: new_transaction_def demo_state0_def)
  with mined_block_hash_valid [OF demo_reachable0' demo_mine1] demo_reachable0' demo_mine1
  show ?thesis by (simp add: zeros_4)
qed

text \<open>
  Claim C10. Every block that \<open>mine_block\<close> returns has a nonce of at least 1: it is
  the candidate after the pass of the loop for its nonce, and no nonce from 1 up to
  it met the difficulty. Nonce 0 is never tried, whatever the digest for nonce 0 is.
\<close>
theorem mined_nonce_at_least_one:
  assumes "reachable H s" and "mine_block H ts s = Some (Inr b, s')"
  shows "1 \<le> nonce b \<and> b = try_nonce H (new_block s ts) (nonce b)
       \<and> (\<forall>n. 1 \<le> n \<and> n < nonce b \<longrightarrow> \<not> solves H (difficulty s) (new_block s ts) n)"
proof -
  from mined_block_shape [OF assms] obtain k
    where b: "b = try_nonce H (new_block s ts) (1 + int k)"
      and m: "\<forall>j<k. \<not> solves H 4 (new_block s ts) (1 + int j)" by blast
  have n: "nonce b = 1 + int k"
    unfolding b by (simp add: nonce_try_nonce)
  have "\<not> solves H 4 (new_block s ts) n" if "1 \<le> n" "n < nonce b" for n
  proof -
    from that n have "nat (n - 1) < k" and "n = 1 + int (nat (n - 1))" by simp_all
    with m show ?thesis by metis
  qed
  with n b reachable_difficulty [OF assms(1)] show ?thesis by simp
qed

theorem mined_nonce_at_least_one_witness:
  "reachable zero_hash zero_state0
   \<and> mine_block zero_hash 1 zero_state0 = Some (Inr zero_block1, zero_state1)
   \<and> solves zero_hash 4 (new_block zero_state0 1) 0
   \<and> nonce zero_block1 = 1 \<and> 1 \<le> nonce zero_block1"
proof -
  have "nonce zero_block1 = 1"
    by (simp add: zero_block1_def)
  with mined_nonce_at_least_one [OF zero_reachable0 zero_mine1] zero_reachable0 zero_mine1
  show ?thesis by (simp add: zero_solves)
qed

section \<open>Mining a block\<close>





section \<open>Spent outputs\<close>

lemma demo_mine2:
  "mine_block demo_hash 2 (new_transaction demo_state1 tx2) = Some (Inr demo_block2, demo_state2)"
  by (simp add: demo_mine_block new_transaction_def demo_state1_def demo_try_nonce new_block_def
      demo_block1_def demo_block2_def demo_state2_def update_utxo_pool_def
      apply_transaction_def create_output_def mark_spent_def tx2_def)

lemma demo_reachable2: "reachable demo_hash demo_state2"
  by (rule reach_mine_block [OF reach_new_transaction [OF demo_reachable1] demo_mine2])

lemma demo_mine3:
  "mine_block demo_hash 3 (new_transaction demo_state2 tx3) = Some (Inr demo_block3, demo_state3)"
  by (simp add: demo_mine_block new_transaction_def demo_state2_def demo_try_nonce new_block_def
      demo_block2_def demo_block3_def demo_state3_def update_utxo_pool_def
      apply_transaction_def create_output_def mark_spent_def tx3_def)

lemma mark_spent_keeps:
  assumes "pool u = Some x" and "is_spent x"
  shows "mark_spent v pool u = Some x"
  using assms by (cases "pool v") (auto simp: mark_spent_def)

lemma fold_mark_spent_keeps:
  assumes "pool u = Some x" and "is_spent x"
  shows "fold mark_spent vs pool u = Some x"
  using assms by (induction vs arbitrary: pool) (simp_all add: mark_spent_keeps)

lemma create_outputs_other:
  assumes "u \<notin> set outs"
  shows "fold (create_output tx) (zip outs [a]) pool u = pool u"
  using assms by (cases outs) (auto simp: create_output_def)

lemma apply_transaction_keeps:
  assumes "pool u = Some x" and "is_spent x" and "u \<notin> set (output_utxos tx)"
  shows "apply_transaction tx pool u = Some x"
  using assms by (simp add: apply_transaction_def create_outputs_other fold_mark_spent_keeps)

lemma fold_apply_transaction_keeps:
  assumes "pool u = Some x" and "is_spent x" and "\<forall>t\<in>set txs. u \<notin> set (output_utxos t)"
  shows "fold apply_transaction txs pool u = Some x"
  using assms by (induction txs arbitrary: pool) (simp_all add: apply_transaction_keeps)

lemma update_utxo_pool_keeps:
  assumes "pool u = Some x" and "is_spent x"
    and "\<forall>t\<in>set (transactions b). u \<notin> set (output_utxos t)"
  shows "update_utxo_pool pool b u = Some x"
  using assms by (simp add: update_utxo_pool_def fold_apply_transaction_keeps)

text \<open>
  As written, claim C2 fails: the entry created for an output replaces whatever
  entry the pool holds under that identifier. Here \<open>u1\<close> is spent in a state of the service, and
  mining a transaction that lists \<open>u1\<close> as its output leaves \<open>u1\<close> unspent.
\<close>
theorem spent_flag_reset_counterexample:
  "reachable demo_hash demo_state2
   \<and> utxo_pool demo_state2 ''u1''
       = Some \<lparr>transaction_id = ''t1'', amount_u = 10, is_spent = True\<rparr>
   \<and> mine_block demo_hash 3 (new_transaction demo_state2 tx3) = Some (Inr demo_block3, demo_state3)
   \<and> utxo_pool demo_state3 ''u1''
       = Some \<lparr>transaction_id = ''t3'', amount_u = 5, is_spent = False\<rparr>"
  using demo_reachable2 demo_mine3 by (simp add: demo_state2_def demo_state3_def)

text \<open>
  Claim C2, amended. An identifier whose entry in the UTXO pool is spent keeps that
  entry, spent, through \<open>new_transaction\<close>, through \<open>mine_block\<close> when no pending
  transaction lists the identifier among its outputs, and through \<open>add_block\<close> when
  no transaction of the block lists it among its outputs.
\<close>
theorem spent_stays_spent:
  assumes "utxo_pool s u = Some x" and "is_spent x"
  shows "utxo_pool (new_transaction s tx) u = Some x
       \<and> ((\<forall>t\<in>set (pending_transactions s). u \<notin> set (output_utxos t)) \<longrightarrow>
            (\<forall>r s'. mine_block H ts s = Some (r, s') \<longrightarrow> utxo_pool s' u = Some x))
       \<and> ((\<forall>t\<in>set (transactions b). u \<notin> set (output_utxos t)) \<longrightarrow>
            utxo_pool (snd (add_block H s b)) u = Some x)"
proof (intro conjI impI allI)
  show "utxo_pool (new_transaction s tx) u = Some x"
    using assms(1) by (simp add: new_transaction_def)
next
  fix r s'
  assume o: "\<forall>t\<in>set (pending_transactions s). u \<notin> set (output_utxos t)"
    and m: "mine_block H ts s = Some (r, s')"
  show "utxo_pool s' u = Some x"
  proof (cases r)
    case (Inl e)
    with m assms(1) show ?thesis by (auto dest: mine_block_failure)
  next
    case (Inr b')
    with m have m': "mine_block H ts s = Some (Inr b', s')" by simp
    note s = mine_block_success [OF m']
    from s have "transactions b' = pending_transactions s"
      by (auto dest: mine_loop_keeps simp: new_block_def)
    with o have "\<forall>t\<in>set (transactions b'). u \<notin> set (output_utxos t)"
      by simp
    then have "update_utxo_pool (utxo_pool s) b' u = Some x"
      using assms by (simp add: update_utxo_pool_keeps)
    with s show ?thesis by simp
  qed
next
  assume o: "\<forall>t\<in>set (transactions b). u \<notin> set (output_utxos t)"
  have "update_utxo_pool (utxo_pool s) b u = Some x"
    using assms o by (simp add: update_utxo_pool_keeps)
  with assms(1) show "utxo_pool (snd (add_block H s b)) u = Some x"
    by (simp add: add_block_def)
qed

theorem spent_stays_spent_witness:
  "utxo_pool demo_state2 ''u1'' = Some \<lparr>transaction_id = ''t1'', amount_u = 10, is_spent = True\<rparr>
   \<and> ''u1'' \<notin> set (output_utxos tx2)
   \<and> fst (add_block demo_hash demo_state2 demo_block_other) = Inr demo_block_other
   \<and> utxo_pool (snd (add_block demo_hash demo_state2 demo_block_other)) ''u1''
       = Some \<lparr>transaction_id = ''t1'', amount_u = 10, is_spent = True\<rparr>
   \<and> utxo_pool (new_transaction demo_state2 tx2) ''u1''
       = Some \<lparr>transaction_id = ''t1'', amount_u = 10, is_spent = True\<rparr>"
proof -
  let ?x = "\<lparr>transaction_id = ''t1'', amount_u = 10::real, is_spent = True\<rparr>"
  have p: "utxo_pool demo_state2 ''u1'' = Some ?x"
    by (simp add: demo_state2_def)
  have x: "is_spent ?x" by simp
  have n: "''u1'' \<notin> set (output_utxos tx2)"
    by (simp add: tx2_def)
  then have o: "\<forall>t\<in>set (transactions demo_block_other). ''u1'' \<notin> set (output_utxos t)"
    by (simp add: demo_block_other_def)
  have a: "fst (add_block demo_hash demo_state2 demo_block_other) = Inr demo_block_other"
    by (simp add: add_block_def demo_state2_def demo_block_other_def demo_block2_def
        validate_block_def compute_hash_def block_data_def demo_hash_def startswith_def zeros_4)
  from spent_stays_spent [OF p x, of tx2 demo_hash 3 demo_block_other] o p n a
  show ?thesis by blast
qed

section \<open>Block indices\<close>

lemma demo_add_index0:
  "add_block demo_hash demo_state0 demo_block_index0 =
     (Inr demo_block_index0,
      demo_state0\<lparr>chain := [demo_genesis, demo_block_index0]\<rparr>)"
  by (simp add: add_block_def demo_state0_def demo_block_index0_def demo_genesis_def
      validate_block_def compute_hash_def block_data_def demo_hash_def startswith_def zeros_4
      update_utxo_pool_def)

lemma indices_increasing_snoc:
  assumes "bs \<noteq> []"
  shows "indices_increasing (bs @ [b]) \<longleftrightarrow>
         indices_increasing bs \<and> index (last bs) < index b"
  using assms
proof (induction bs rule: indices_increasing.induct)
  case 1
  then show ?case by simp
next
  case (2 a)
  show ?case by simp
next
  case (3 a c bs)
  then show ?case by auto
qed

lemma indices_increasing_nth:
  assumes "indices_increasing bs" and "i + 1 < length bs"
  shows "index (bs ! i) < index (bs ! (i + 1))"
  using assms
proof (induction bs arbitrary: i rule: indices_increasing.induct)
  case 1
  then show ?case by simp
next
  case (2 a)
  then show ?case by simp
next
  case (3 a c bs)
  show ?case
  proof (cases i)
    case 0
    with 3 show ?thesis by simp
  next
    case (Suc j)
    with 3 show ?thesis by simp
  qed
qed

lemma reachable_genesis_index: "reachable H s \<Longrightarrow> chain s \<noteq> [] \<and> index (chain s ! 0) = 0"
proof (induction rule: reachable.induct)
  case (reach_init ts)
  show ?case by (simp add: init_def create_genesis_block_def genesis_block_def)
next
  case (reach_new_transaction s tx)
  then show ?case by (simp add: new_transaction_def)
next
  case (reach_mine_block s ts r s')
  show ?case
  proof (cases r)
    case (Inl e)
    with reach_mine_block show ?thesis by (auto dest: mine_block_failure)
  next
    case (Inr b)
    with reach_mine_block(2) have "mine_block H ts s = Some (Inr b, s')" by simp
    from mine_block_success [OF this] reach_mine_block.IH show ?thesis
      by (simp add: nth_append)
  qed
next
  case (reach_add_block s b r s')
  show ?case
  proof (cases r)
    case (Inl e)
    with reach_add_block show ?thesis by (auto dest: add_block_failure)
  next
    case (Inr b')
    with reach_add_block(2) have "add_block H s b = (Inr b', s')" by simp
    from add_block_success [OF this] reach_add_block.IH show ?thesis
      by (simp add: nth_append)
  qed
qed

text \<open>
  As written, claim C9 fails for external blocks: \<open>add_block\<close> checks
  \<open>previous_hash\<close> and the hash of the block and never reads its \<open>index\<close>. Right
  after start-up, a block with index 0 is accepted on top of the genesis block.
\<close>
theorem external_block_index_counterexample:
  "reachable demo_hash demo_state0
   \<and> add_block demo_hash demo_state0 demo_block_index0 =
       (Inr demo_block_index0, demo_state0\<lparr>chain := [demo_genesis, demo_block_index0]\<rparr>)
   \<and> map index (chain (demo_state0\<lparr>chain := [demo_genesis, demo_block_index0]\<rparr>)) = [0, 0]
   \<and> \<not> indices_increasing (chain (demo_state0\<lparr>chain := [demo_genesis, demo_block_index0]\<rparr>))"
proof -
  have "\<not> indices_increasing [demo_genesis, demo_block_index0]"
    by (simp add: demo_genesis_def demo_block_index0_def)
  with demo_reachable0 demo_add_index0 show ?thesis
    by (simp add: demo_genesis_def demo_block_index0_def)
qed

text \<open>
  Claim C9, amended. In every state of the service the first block of the chain has
  index 0. A block appended by \<open>mine_block\<close> has the index of the block before it
  plus one, so mining keeps strictly increasing indices strictly increasing. A block
  appended by \<open>add_block\<close> keeps the index it came with: after the append the
  indices are strictly increasing exactly when they were before and the new block's
  index is greater than that of the block before it.
\<close>
theorem block_indices:
  assumes "reachable H s"
  shows "index (chain s ! 0) = 0
       \<and> (\<forall>m s'. mine_block H ts s = Some (Inr m, s') \<longrightarrow>
            chain s' = chain s @ [m] \<and> index m = index (last (chain s)) + 1
            \<and> (indices_increasing (chain s) \<longrightarrow> indices_increasing (chain s')))
       \<and> (\<forall>r s'. add_block H s b = (Inr r, s') \<longrightarrow>
            chain s' = chain s @ [b]
            \<and> (indices_increasing (chain s) \<longrightarrow>
                 (indices_increasing (chain s') \<longleftrightarrow> index (last (chain s)) < index b)))"
proof (intro conjI allI impI)
  show "index (chain s ! 0) = 0"
    using reachable_genesis_index [OF assms] by simp
next
  fix m s'
  assume m: "mine_block H ts s = Some (Inr m, s')"
  note s = mine_block_success [OF m]
  from s show c: "chain s' = chain s @ [m]" by simp
  from s show i: "index m = index (last (chain s)) + 1"
    by (auto dest: mine_loop_keeps simp: new_block_def)
  assume "indices_increasing (chain s)"
  with c i s show "indices_increasing (chain s')"
    by (simp add: indices_increasing_snoc)
next
  fix r s'
  assume a: "add_block H s b = (Inr r, s')"
  note s = add_block_success [OF a]
  from s show c: "chain s' = chain s @ [b]" by simp
  assume "indices_increasing (chain s)"
  with c s show "indices_increasing (chain s') \<longleftrightarrow> index (last (chain s)) < index b"
    by (simp add: indices_increasing_snoc)
qed

theorem block_indices_witness:
  "reachable demo_hash (new_transaction demo_state0 tx1)
   \<and> index (chain (new_transaction demo_state0 tx1) ! 0) = 0
   \<and> indices_increasing (chain (new_transaction demo_state0 tx1))
   \<and> mine_block demo_hash 1 (new_transaction demo_state0 tx1) = Some (Inr demo_block1, demo_state1)
   \<and> index demo_block1 = index (last (chain (new_transaction demo_state0 tx1))) + 1
   \<and> indices_increasing (chain demo_state1)
   \<and> reachable demo_hash demo_state0
   \<and> indices_increasing (chain demo_state0)
   \<and> add_block demo_hash demo_state0 demo_block_index0 =
       (Inr demo_block_index0, demo_state0\<lparr>chain := [demo_genesis, demo_block_index0]\<rparr>)
   \<and> \<not> index (last (chain demo_state0)) < index demo_block_index0
   \<and> \<not> indices_increasing (chain (demo_state0\<lparr>chain := [demo_genesis, demo_block_index0]\<rparr>))"
proof -
  let ?s = "new_transaction demo_state0 tx1"
  have i0: "indices_increasing (chain demo_state0)"
    by (simp add: demo_state0_def)
  then have i1: "indices_increasing (chain ?s)"
    by (simp add: new_transaction_def)
  have n: "\<not> index (last (chain demo_state0)) < index demo_block_index0"
    by (simp add: demo_state0_def demo_genesis_def demo_block_index0_def)
  from block_indices [OF demo_reachable0', of 1 demo_block_index0] demo_mine1 i1
  have "index (chain ?s ! 0) = 0
      \<and> index demo_block1 = index (last (chain ?s)) + 1
      \<and> indices_increasing (chain demo_state1)"
    by blast
  moreover from block_indices [OF demo_reachable0, of 1 demo_block_index0] demo_add_index0 i0 n
  have "\<not> indices_increasing (chain (demo_state0\<lparr>chain := [demo_genesis, demo_block_index0]\<rparr>))"
    by blast
  ultimately show ?thesis
    using demo_reachable0 demo_reachable0' demo_mine1 demo_add_index0 i0 i1 n by blast
qed

section \<open>Where the code departs from the specification\<close>

lemma apply_transaction_first_output:
  "apply_transaction tx pool =
     (case output_utxos tx of
        [] \<Rightarrow> fold mark_spent (input_utxos tx) pool
      | u # rest \<Rightarrow>
          (fold mark_spent (input_utxos tx) pool)
            (u \<mapsto> \<lparr>transaction_id = id_t tx, amount_u = amount tx, is_spent = False\<rparr>))"
  by (simp add: apply_transaction_def create_output_def split: list.splits)

text \<open>
  Claim C1 says that every output identifier of a transaction gets an entry. The
  loop over the outputs runs over \<open>zip\<close> with a list of one element, so it creates
  an entry for the first output identifier only: mining a transaction with the
  outputs \<open>u1\<close> and \<open>u2\<close> leaves a pool that holds \<open>u1\<close> and no \<open>u2\<close>.
\<close>
theorem second_output_not_created:
  "mine_block demo_hash 1 (new_transaction demo_state0 tx_two_outputs) =
     Some (Inr demo_block_two,
           demo_state0\<lparr>chain := [demo_genesis, demo_block_two],
                       utxo_pool := [''u1'' \<mapsto> \<lparr>transaction_id = ''t4'', amount_u = 10,
                                                   is_spent = False\<rparr>]\<rparr>)
   \<and> output_utxos tx_two_outputs = [''u1'', ''u2'']
   \<and> [''u1'' \<mapsto> \<lparr>transaction_id = ''t4'', amount_u = 10::real, is_spent = False\<rparr>] ''u2'' = None"
  by (simp add: demo_mine_block new_transaction_def demo_state0_def demo_try_nonce new_block_def
      demo_genesis_def demo_block_two_def update_utxo_pool_def
      apply_transaction_def create_output_def tx_two_outputs_def)

lemma hex_digit_examples: "hex_digit CHR ''0'' = Some 0" "hex_digit CHR ''a'' = Some 10" "hex_digit CHR ''b'' = Some 11"
  "hex_digit CHR ''z'' = None"
  by (simp_all add: hex_digit_def)

lemma is_space_examples: "\<not> is_space CHR ''0''" "\<not> is_space CHR ''a''" "\<not> is_space CHR ''z''"
  by (simp_all add: is_space_def)

lemma fromhex_00: "fromhex ''00'' = Inr [0]"
  by (simp add: hex_digit_examples is_space_examples)

lemma fromhex_zz: "fromhex ''zz'' = Inl ValueError"
  by (simp add: hex_digit_examples is_space_examples)

lemma hex_digit_lower:
  "hex_digit CHR ''0'' = Some 0" "hex_digit CHR ''1'' = Some 1" "hex_digit CHR ''2'' = Some 2"
  "hex_digit CHR ''3'' = Some 3" "hex_digit CHR ''4'' = Some 4" "hex_digit CHR ''5'' = Some 5"
  "hex_digit CHR ''6'' = Some 6" "hex_digit CHR ''7'' = Some 7" "hex_digit CHR ''8'' = Some 8"
  "hex_digit CHR ''9'' = Some 9" "hex_digit CHR ''a'' = Some 10" "hex_digit CHR ''b'' = Some 11"
  "hex_digit CHR ''c'' = Some 12" "hex_digit CHR ''d'' = Some 13" "hex_digit CHR ''e'' = Some 14"
  "hex_digit CHR ''f'' = Some 15"
  by (simp_all add: hex_digit_def)

lemma fromhex_byte:
  assumes "hex_digit c = Some hi" and "hex_digit c' = Some lo" and "16 * hi + lo = b"
    and "fromhex cs = Inr bs"
  shows "fromhex (c # c' # cs) = Inr (b # bs)"
proof -
  have "\<not> is_space c"
    using assms(1) by (auto simp: is_space_def hex_digit_def Let_def split: if_splits)
  with assms show ?thesis by simp
qed

lemma fromhex_honest_key: "fromhex honest_key_hex = Inr honest_key_bytes"
  unfolding honest_key_hex_def honest_key_bytes_def
  by ((rule fromhex_byte, rule hex_digit_lower, rule hex_digit_lower, simp)+, simp)

lemma fromhex_honest_sig: "fromhex honest_sig_hex = Inr honest_sig_bytes"
  unfolding honest_sig_hex_def honest_sig_bytes_def
  by ((rule fromhex_byte, rule hex_digit_lower, rule hex_digit_lower, simp)+, simp)

text \<open>
  Claim C7 says that the message the signature is checked against leaves the
  signature field out. The code passes \<open>json.dumps\<close> of the whole \<open>tx.dict()\<close>.
  For the transaction \<open>tx_honest\<close>, whatever the library functions are: the key
  bytes go to \<open>from_string\<close>, and when that returns a key, \<open>verify\<close> is called
  with a message that holds the key \<open>signature\<close> and its value; changing only the
  signature changes the message.
\<close>
theorem signed_message_holds_signature:
  "verify_transaction from_string verify dumps s tx_honest =
     (case from_string honest_key_bytes of
        Inl e \<Rightarrow> Inl e
      | Inr public_key \<Rightarrow>
          (case verify public_key honest_sig_bytes
                  (dumps (JDict [(''id'', JStr ''t5''), (''sender'', JStr honest_key_hex),
                                 (''receiver'', JStr ''B''), (''amount'', JFloat 1),
                                 (''input_utxos'', JList []), (''output_utxos'', JList []),
                                 (''signature'', JStr honest_sig_hex)])) of
             Inl e \<Rightarrow> if e = BadSignatureError then Inl InvalidSignature else Inl e
           | Inr is_valid \<Rightarrow>
               if is_valid then Inr ''Transaction is valid.'' else Inl InvalidSignature))
   \<and> length honest_key_bytes = 64 \<and> length honest_sig_bytes = 64
   \<and> tx_dict (tx_honest\<lparr>signature := ''''\<rparr>) \<noteq> tx_dict tx_honest"
proof -
  let ?m = "dumps (JDict [(''id'', JStr ''t5''), (''sender'', JStr honest_key_hex),
                          (''receiver'', JStr ''B''), (''amount'', JFloat 1),
                          (''input_utxos'', JList []), (''output_utxos'', JList []),
                          (''signature'', JStr honest_sig_hex)])"
  have m: "signed_message dumps tx_honest = ?m"
    by (simp add: signed_message_def tx_dict_def tx_honest_def)
  have v: "verify_signature verify public_key ?m honest_sig_hex =
          (case verify public_key honest_sig_bytes ?m of
             Inl e \<Rightarrow> if e = BadSignatureError then Inr False else Inl e
           | Inr ok \<Rightarrow> Inr ok)" for public_key
    by (simp add: verify_signature_def fromhex_honest_sig)
  have f: "sender tx_honest = honest_key_hex" "signature tx_honest = honest_sig_hex"
    "input_utxos tx_honest = []"
    by (simp_all add: tx_honest_def)
  have 1: "verify_transaction from_string verify dumps s tx_honest =
     (case from_string honest_key_bytes of
        Inl e \<Rightarrow> Inl e
      | Inr public_key \<Rightarrow>
          (case verify public_key honest_sig_bytes ?m of
             Inl e \<Rightarrow> if e = BadSignatureError then Inl InvalidSignature else Inl e
           | Inr is_valid \<Rightarrow>
               if is_valid then Inr ''Transaction is valid.'' else Inl InvalidSignature))"
  proof (cases "from_string honest_key_bytes")
    case (Inl e)
    then show ?thesis
      by (simp add: verify_transaction_def f fromhex_honest_key)
  next
    case (Inr public_key)
    then show ?thesis
      by (cases "verify public_key honest_sig_bytes ?m")
         (simp_all add: verify_transaction_def f fromhex_honest_key m v)
  qed
  have 2: "length honest_key_bytes = 64" "length honest_sig_bytes = 64"
    by (simp_all add: honest_key_bytes_def honest_sig_bytes_def)
  have "honest_sig_hex \<noteq> ''''"
    by (simp add: honest_sig_hex_def)
  then have 3: "tx_dict (tx_honest\<lparr>signature := ''''\<rparr>) \<noteq> tx_dict tx_honest"
    by (simp add: tx_dict_def tx_honest_def)
  from 1 2 3 show ?thesis by simp
qed

text \<open>
  Claim C8 says that malformed input makes the signature check return false. The
  \<open>try\<close> block catches \<open>BadSignatureError\<close> only: a signature or a sender that is
  not hexadecimal raises \<open>ValueError\<close>, whatever the library functions do, and an
  error of \<open>from_string\<close> is raised as it is.
\<close>
theorem malformed_hex_raises:
  "verify_signature verify public_key data ''zz'' = Inl ValueError
   \<and> verify_transaction from_string verify dumps s (tx_signed\<lparr>signature := ''zz''\<rparr>)
       = (case from_string [0] of Inl e \<Rightarrow> Inl e | Inr public_key \<Rightarrow> Inl ValueError)
   \<and> verify_transaction from_string verify dumps s (tx_signed\<lparr>sender := ''zz''\<rparr>)
       = Inl ValueError"
proof -
  have 1: "verify_signature verify public_key data ''zz'' = Inl ValueError" for public_key data
    by (simp add: verify_signature_def fromhex_zz del: fromhex.simps)
  have 2: "verify_transaction from_string verify dumps s (tx_signed\<lparr>signature := ''zz''\<rparr>)
       = (case from_string [0] of Inl e \<Rightarrow> Inl e | Inr public_key \<Rightarrow> Inl ValueError)"
    by (cases "from_string [0]") (simp_all add: verify_transaction_def tx_signed_def fromhex_00 1 del: fromhex.simps)
  have 3: "verify_transaction from_string verify dumps s (tx_signed\<lparr>sender := ''zz''\<rparr>)
       = Inl ValueError"
    by (simp add: verify_transaction_def tx_signed_def fromhex_zz del: fromhex.simps)
  from 1 2 3 show ?thesis by simp
qed

end
